theory Spec2Isabelle
  imports Main "HOL-Library.Word" "HOL-Library.Multiset"
begin

unbundle bit_operations_syntax

section \<open>Python values and primitives used by \<open>isdhcplib/type_rfc.py\<close>\<close>

text \<open>
  The module is Python 2 (\<open>iteritems\<close>, \<open>xrange\<close>, \<open>__nonzero__\<close>). Its buffers are
  "byte arrays": lists of non-negative Python integers, modelled as \<open>nat list\<close>.
  An element that is not below 256 is still representable, and \<open>chr\<close> raises on it.
  A Python 2 \<open>str\<close> is a byte string; it is modelled as the list of its character codes.
  Every \<open>raise\<close>, explicit or implicit, is a value \<open>Inl e\<close> of the result type.
  The interpreter's recursion limit is a configurable resource bound, like memory, and
  is not modelled: recursion is as deep as the buffer needs (one call per entry, and an
  option of a DHCP packet has at most 255 bytes).
\<close>

datatype error =
    ValueError_expected_2_bytes nat
  | ValueError_format_mismatch nat nat nat
  | ValueError_unpack nat
  | ValueError_chr nat
  | ValueError_invalid_literal "nat list"
  | IndexError
  | AddrFormatError

type_synonym 'a result = "error + 'a"

text \<open>\<open>xs[lo:hi]\<close> and \<open>xs[lo:]\<close> for non-negative bounds: slices clamp, they never raise.\<close>

definition py_slice :: "'a list \<Rightarrow> nat \<Rightarrow> nat \<Rightarrow> 'a list" where
  "py_slice xs lo hi = take (hi - lo) (drop lo xs)"

definition py_slice_from :: "'a list \<Rightarrow> nat \<Rightarrow> 'a list" where
  "py_slice_from xs lo = drop lo xs"

text \<open>\<open>xs[::2]\<close>: every second element, starting with the first.\<close>

fun py_step2 :: "'a list \<Rightarrow> 'a list" where
  "py_step2 [] = []"
| "py_step2 [x] = [x]"
| "py_step2 (x # y # xs) = x # py_step2 xs"

text \<open>\<open>xs[i]\<close> for a non-negative index raises \<open>IndexError\<close> out of range.\<close>

definition py_index :: "'a list \<Rightarrow> nat \<Rightarrow> 'a result" where
  "py_index xs i = (if i < length xs then Inr (xs ! i) else Inl IndexError)"

text \<open>\<open>a, b = xs\<close>: unpacking raises \<open>ValueError\<close> unless \<open>xs\<close> has exactly two elements.\<close>

definition unpack2 :: "'a list \<Rightarrow> ('a \<times> 'a) result" where
  "unpack2 xs = (case xs of [a, b] \<Rightarrow> Inr (a, b) | _ \<Rightarrow> Inl (ValueError_unpack (length xs)))"

text \<open>A list comprehension \<open>[f(x) for x in xs]\<close>: the first raise aborts it.\<close>

fun py_map :: "('a \<Rightarrow> 'b result) \<Rightarrow> 'a list \<Rightarrow> 'b list result" where
  "py_map f [] = Inr []"
| "py_map f (x # xs) =
     (case f x of
        Inl e \<Rightarrow> Inl e
      | Inr y \<Rightarrow> (case py_map f xs of Inl e \<Rightarrow> Inl e | Inr ys \<Rightarrow> Inr (y # ys)))"

text \<open>\<open>chr(i)\<close>: a one-character string, \<open>ValueError\<close> unless \<open>i\<close> is in \<open>range(256)\<close>.\<close>

definition py_chr :: "nat \<Rightarrow> nat list result" where
  "py_chr i = (if i < 256 then Inr [i] else Inl (ValueError_chr i))"

subsection \<open>The builtin \<open>int(s, 16)\<close>\<close>

text \<open>
  \<open>int(s, 16)\<close> on a \<open>str\<close> is CPython 2.7's \<open>PyInt_FromString\<close> over \<open>PyOS_strtol\<close> and
  \<open>PyOS_strtoul\<close> in the C locale; the builtin is not part of the repository, and the
  functions below follow those C functions for base 16 on the machine-integer path
  (the strings built by \<open>AgentRemoteId\<close> have two characters and cannot overflow).
  A "pointer into the string" is the suffix that starts there.
\<close>

definition isspace :: "nat \<Rightarrow> bool" where
  "isspace c = (c = 32 \<or> (9 \<le> c \<and> c \<le> 13))"

definition digit_value :: "nat \<Rightarrow> nat" where
  "digit_value c =
     (if 48 \<le> c \<and> c \<le> 57 then c - 48
      else if 97 \<le> c \<and> c \<le> 122 then c - 87
      else if 65 \<le> c \<and> c \<le> 90 then c - 55
      else 37)"

definition isalnum :: "nat \<Rightarrow> bool" where
  "isalnum c = (digit_value c < 36)"

text \<open>The conversion loop of \<open>PyOS_strtoul\<close>: value of the leading digits, and the rest.\<close>

definition strtoul_digits :: "nat list \<Rightarrow> nat \<times> nat list" where
  "strtoul_digits str =
     (fold (\<lambda>c result. result * 16 + digit_value c) (takeWhile (\<lambda>c. digit_value c < 16) str) 0,
      dropWhile (\<lambda>c. digit_value c < 16) str)"

definition PyOS_strtoul :: "nat list \<Rightarrow> nat \<times> nat list" where
  "PyOS_strtoul str0 =
     (let str = dropWhile isspace str0 in
      case str of
        [] \<Rightarrow> strtoul_digits str
      | c # str1 \<Rightarrow>
          if c = 48 then
            (case str1 of
               [] \<Rightarrow> strtoul_digits str1
             | x # str2 \<Rightarrow>
                 if x = 120 \<or> x = 88 then
                   (if digit_value (case str2 of [] \<Rightarrow> 0 | d # _ \<Rightarrow> d) \<ge> 16 then (0, str1)
                    else strtoul_digits str2)
                 else strtoul_digits str1)
          else strtoul_digits str)"

definition PyOS_strtol :: "nat list \<Rightarrow> int \<times> nat list" where
  "PyOS_strtol str0 =
     (let str = dropWhile isspace str0;
          sign = (case str of [] \<Rightarrow> 0 | c # _ \<Rightarrow> c);
          str = (if sign = 43 \<or> sign = 45 then tl str else str);
          (uresult, end) = PyOS_strtoul str
      in (if sign = 45 then - int uresult else int uresult, end))"

definition PyInt_FromString :: "nat list \<Rightarrow> nat list \<Rightarrow> int result" where
  "PyInt_FromString literal s0 =
     (let s = dropWhile isspace s0;
          (x, end) = PyOS_strtol s;
          scanned = take (length s - length end) s
      in if scanned = [] \<or> \<not> isalnum (last scanned) then Inl (ValueError_invalid_literal literal)
         else if dropWhile isspace end \<noteq> [] then Inl (ValueError_invalid_literal literal)
         else Inr x)"

definition py_int16 :: "nat list \<Rightarrow> int result" where
  "py_int16 s =
     (if 0 \<in> set s then Inl (ValueError_invalid_literal s) else PyInt_FromString s s)"

section \<open>\<open>class RFC3046\<close>: the Relay Agent Information option\<close>

text \<open>
  \<open>_parseSuboption\<close> (lines 38-73). The dictionary is a map; \<open>d.update(e)\<close> is \<open>d ++ e\<close>,
  where the entries of \<open>e\<close> win.
\<close>

function parseSuboption :: "nat list \<Rightarrow> (nat \<rightharpoonup> nat list) result" where
  "parseSuboption data =
     (if length data < 2 then Inl (ValueError_expected_2_bytes (length data))
      else
        case unpack2 (py_slice data 0 2) of
          Inl e \<Rightarrow> Inl e
        | Inr (suboption_id, suboption_len) \<Rightarrow>
            let suboption_value = py_slice data 2 (2 + suboption_len) in
            if length suboption_value \<noteq> suboption_len
            then Inl (ValueError_format_mismatch suboption_id suboption_len (length suboption_value))
            else
              let suboption = [suboption_id \<mapsto> suboption_value] in
              if length data > suboption_len + 2
              then (case parseSuboption (py_slice_from data (2 + suboption_len)) of
                      Inl e \<Rightarrow> Inl e
                    | Inr later \<Rightarrow> Inr (suboption ++ later))
              else Inr suboption)"
  by pat_completeness auto
termination
  by (relation "measure length") (auto simp: py_slice_from_def)

text \<open>\<open>_decodeSuboptionAttr\<close> (lines 76-98): no length check, the value slice clamps.\<close>

function decodeSuboptionAttr :: "nat list \<Rightarrow> (nat \<times> nat list) list result" where
  "decodeSuboptionAttr suboption_value =
     (if length suboption_value < 2 then Inr []
      else
        case unpack2 (py_slice suboption_value 0 2) of
          Inl e \<Rightarrow> Inl e
        | Inr (suboption_attr_type, suboption_attr_len) \<Rightarrow>
            let suboption_attr =
                  [(suboption_attr_type, py_slice suboption_value 2 (2 + suboption_attr_len))] in
            if length suboption_value > suboption_attr_len + 2
            then (case decodeSuboptionAttr (py_slice_from suboption_value (2 + suboption_attr_len)) of
                    Inl e \<Rightarrow> Inl e
                  | Inr later \<Rightarrow> Inr (suboption_attr @ later))
            else Inr suboption_attr)"
  by pat_completeness auto
termination
  by (relation "measure length") (auto simp: py_slice_from_def)

text \<open>The instance: \<open>raw\<close>, \<open>suboptions\<close>, \<open>agent_circuit_id\<close>, \<open>agent_remote_id\<close>.\<close>

record RFC3046 =
  raw :: "nat list"
  suboptions :: "nat \<rightharpoonup> nat list"
  agent_circuit_id :: "(nat \<times> nat list) list"
  agent_remote_id :: "(nat \<times> nat list) list"

text \<open>
  \<open>__init__\<close> (lines 12-35). Both attribute lists start empty. The loop over
  \<open>self.suboptions.iteritems()\<close> acts on the keys 1 and 2 only, and a dictionary holds a
  key once, so the loop is the two lookups, whatever the iteration order.
\<close>

definition decode_if_present :: "(nat \<rightharpoonup> nat list) \<Rightarrow> nat \<Rightarrow> (nat \<times> nat list) list result" where
  "decode_if_present subs k =
     (case subs k of None \<Rightarrow> Inr [] | Some suboption_value \<Rightarrow> decodeSuboptionAttr suboption_value)"

definition RFC3046_init :: "nat list \<Rightarrow> RFC3046 result" where
  "RFC3046_init data =
     (case parseSuboption data of
        Inl e \<Rightarrow> Inl e
      | Inr subs \<Rightarrow>
          (case decode_if_present subs 1 of
             Inl e \<Rightarrow> Inl e
           | Inr circuit \<Rightarrow>
               (case decode_if_present subs 2 of
                  Inl e \<Rightarrow> Inl e
                | Inr remote \<Rightarrow>
                    Inr \<lparr>raw = data, suboptions = subs,
                         agent_circuit_id = circuit, agent_remote_id = remote\<rparr>)))"

text \<open>
  \<open>AgentRemoteId\<close> (lines 101-116). The value of a type-0 attribute is returned as it
  is; its elements are read as Python integers (\<open>map int\<close>), the type of what \<open>int(s, 16)\<close>
  returns on the other path.
\<close>

definition hex_of_pair :: "nat list \<times> nat list \<Rightarrow> int result" where
  "hex_of_pair pair = py_int16 (fst pair @ snd pair)"

definition AgentRemoteId :: "RFC3046 \<Rightarrow> int list option result" where
  "AgentRemoteId self =
     (if length (agent_remote_id self) = 0 then Inr None
      else
        case py_index (agent_remote_id self) 0 of
          Inl e \<Rightarrow> Inl e
        | Inr (remote_id_type, remote_id) \<Rightarrow>
            if remote_id_type = 0 \<and> length remote_id = 6 then Inr (Some (map int remote_id))
            else if remote_id_type = 1 \<and> length remote_id = 17 then
              (case py_map py_chr (filter (\<lambda>i. i \<noteq> 45) remote_id) of
                 Inl e \<Rightarrow> Inl e
               | Inr chars \<Rightarrow>
                   (case py_map hex_of_pair
                           (zip (py_step2 chars) (py_step2 (py_slice_from chars 1))) of
                      Inl e \<Rightarrow> Inl e
                    | Inr decoded \<Rightarrow> Inr (Some decoded)))
            else Inr None)"

text \<open>\<open>AgentCircuitId\<close> (lines 119-133).\<close>

definition AgentCircuitId :: "RFC3046 \<Rightarrow> (nat \<times> nat \<times> nat) option result" where
  "AgentCircuitId self =
     (if length (agent_circuit_id self) = 0 then Inr None
      else
        case py_index (agent_circuit_id self) 0 of
          Inl e \<Rightarrow> Inl e
        | Inr (attr_type, attr_value) \<Rightarrow>
            if attr_type = 0 \<and> length attr_value = 4 then
              (case py_index attr_value 0 of Inl e \<Rightarrow> Inl e | Inr v0 \<Rightarrow>
              (case py_index attr_value 1 of Inl e \<Rightarrow> Inl e | Inr v1 \<Rightarrow>
              (case py_index attr_value 2 of Inl e \<Rightarrow> Inl e | Inr module \<Rightarrow>
              (case py_index attr_value 3 of Inl e \<Rightarrow> Inl e | Inr port \<Rightarrow>
                 Inr (Some (push_bit 8 v0 + v1, module, port))))))
            else Inr None)"

text \<open>\<open>__nonzero__\<close> and \<open>__len__\<close> (lines 136-141).\<close>

definition nonzero :: "RFC3046 \<Rightarrow> bool" where
  "nonzero self = (length (raw self) > 0)"

definition len :: "RFC3046 \<Rightarrow> nat" where
  "len self = length (raw self)"

section \<open>\<open>class RFC3442\<close>: classless static routes\<close>

text \<open>
  Modelled from the spec: the objects of the external library \<open>netaddr\<close>, which is not
  under \<open>src/\<close>. An \<open>IPNetwork\<close> is an IPv4 address value with a prefix length;
  \<open>.network\<close> is the address with the host bits beyond the prefix zeroed, and \<open>.words\<close>
  the four octets of an address, most significant first. The two constructors, which
  parse strings and raise \<open>AddrFormatError\<close>, are parameters of \<open>RFC3442_init\<close>.
\<close>

record ipnetwork =
  ip_value :: "32 word"
  prefixlen :: nat

definition network :: "ipnetwork \<Rightarrow> 32 word" where
  "network n = ip_value n AND NOT (mask (32 - prefixlen n))"

definition words :: "32 word \<Rightarrow> nat list" where
  "words a =
     [unat (drop_bit 24 a AND 255), unat (drop_bit 16 a AND 255),
      unat (drop_bit 8 a AND 255), unat (a AND 255)]"

text \<open>
  An element of \<open>self._routes\<close>: the tuple (network, prefixlen, network.words, gateway.words).
\<close>

type_synonym route = "32 word \<times> nat \<times> nat list \<times> nat list"

record RFC3442 =
  routes :: "route list"

text \<open>
  \<open>__init__\<close> (lines 146-150). \<open>routes.iteritems()\<close> is the list of the dictionary's
  (subnet, gateway) pairs in iteration order.
\<close>

fun init_loop ::
  "(string \<Rightarrow> ipnetwork result) \<Rightarrow> (string \<Rightarrow> 32 word result) \<Rightarrow>
   (string \<times> string) list \<Rightarrow> route list \<Rightarrow> route list result" where
  "init_loop IPNetwork IPAddress [] acc = Inr acc"
| "init_loop IPNetwork IPAddress ((subnet, gw) # rest) acc =
     (case IPNetwork subnet of
        Inl e \<Rightarrow> Inl e
      | Inr net \<Rightarrow>
          (case IPAddress gw of
             Inl e \<Rightarrow> Inl e
           | Inr gateway \<Rightarrow>
               init_loop IPNetwork IPAddress rest
                 (acc @ [(network net, prefixlen net, words (network net), words gateway)])))"

definition RFC3442_init ::
  "(string \<Rightarrow> ipnetwork result) \<Rightarrow> (string \<Rightarrow> 32 word result) \<Rightarrow>
   (string \<times> string) list \<Rightarrow> RFC3442 result" where
  "RFC3442_init IPNetwork IPAddress items =
     (case init_loop IPNetwork IPAddress items [] of
        Inl e \<Rightarrow> Inl e
      | Inr rs \<Rightarrow> Inr \<lparr>routes = rs\<rparr>)"

text \<open>
  \<open>ListClasslessRoutes\<close> (lines 152-163): the inner loop over \<open>xrange(4)\<close>, then the loop
  over \<open>self._routes\<close>; \<open>result\<close> is threaded through both.
\<close>

fun octet_loop :: "route \<Rightarrow> nat list \<Rightarrow> nat list \<Rightarrow> nat list result" where
  "octet_loop route [] result = Inr result"
| "octet_loop route (i # is) result =
     (if fst (snd route) > i * 8
      then (case py_index (fst (snd (snd route))) i of
              Inl e \<Rightarrow> Inl e
            | Inr octet \<Rightarrow> octet_loop route is (result @ [octet]))
      else octet_loop route is result)"

fun route_loop :: "route list \<Rightarrow> nat list \<Rightarrow> nat list result" where
  "route_loop [] result = Inr result"
| "route_loop (route # rest) result =
     (case octet_loop route [0, 1, 2, 3] (result @ [fst (snd route)]) of
        Inl e \<Rightarrow> Inl e
      | Inr result' \<Rightarrow> route_loop rest (result' @ snd (snd (snd route))))"

definition ListClasslessRoutes :: "RFC3442 \<Rightarrow> nat list result" where
  "ListClasslessRoutes self = route_loop (routes self) []"

text \<open>
  The specification's \<open>encode(routes)\<close> is \<open>RFC3442(routes).ListClasslessRoutes()\<close>.
\<close>

definition encode ::
  "(string \<Rightarrow> ipnetwork result) \<Rightarrow> (string \<Rightarrow> 32 word result) \<Rightarrow>
   (string \<times> string) list \<Rightarrow> nat list result" where
  "encode IPNetwork IPAddress items =
     (case RFC3442_init IPNetwork IPAddress items of
        Inl e \<Rightarrow> Inl e
      | Inr self \<Rightarrow> ListClasslessRoutes self)"

section \<open>Notions of the specification\<close>

text \<open>
  A well-formed buffer is the concatenation of the wire forms of suboptions: the id, the
  length of the value, the value.
\<close>

definition tlv_bytes :: "nat \<times> nat list \<Rightarrow> nat list" where
  "tlv_bytes tlv = fst tlv # length (snd tlv) # snd tlv"

definition wire :: "(nat \<times> nat list) list \<Rightarrow> nat list" where
  "wire tlvs = concat (map tlv_bytes tlvs)"

text \<open>
  The entries that \<open>_parseSuboption\<close> parses, in the order of its recursion: the same walk
  over the buffer, which lists the single-entry dictionaries instead of merging them.
  Lemma \<open>parseSuboption_entries\<close> relates it to \<open>parseSuboption\<close>. Each entry
  consumes its two header bytes and its value.
\<close>

function suboption_entries :: "nat list \<Rightarrow> (nat \<times> nat list) list result" where
  "suboption_entries data =
     (if length data < 2 then Inl (ValueError_expected_2_bytes (length data))
      else
        case unpack2 (py_slice data 0 2) of
          Inl e \<Rightarrow> Inl e
        | Inr (suboption_id, suboption_len) \<Rightarrow>
            let suboption_value = py_slice data 2 (2 + suboption_len) in
            if length suboption_value \<noteq> suboption_len
            then Inl (ValueError_format_mismatch suboption_id suboption_len (length suboption_value))
            else
              if length data > suboption_len + 2
              then (case suboption_entries (py_slice_from data (2 + suboption_len)) of
                      Inl e \<Rightarrow> Inl e
                    | Inr later \<Rightarrow> Inr ((suboption_id, suboption_value) # later))
              else Inr [(suboption_id, suboption_value)])"
  by pat_completeness auto
termination
  by (relation "measure length") (auto simp: py_slice_from_def)

definition consumed :: "(nat \<times> nat list) list \<Rightarrow> nat" where
  "consumed entries = sum_list (map (\<lambda>entry. 2 + length (snd entry)) entries)"

text \<open>ASCII hexadecimal digits and the byte that two of them spell.\<close>

definition hex_digit :: "nat \<Rightarrow> bool" where
  "hex_digit c = ((48 \<le> c \<and> c \<le> 57) \<or> (65 \<le> c \<and> c \<le> 70) \<or> (97 \<le> c \<and> c \<le> 102))"

definition hex_value :: "nat \<Rightarrow> nat" where
  "hex_value c = (if c \<le> 57 then c - 48 else if c \<le> 70 then c - 55 else c - 87)"

fun hex_pairs :: "nat list \<Rightarrow> int list" where
  "hex_pairs (a # b # cs) = int (16 * hex_value a + hex_value b) # hex_pairs cs"
| "hex_pairs cs = []"

text \<open>The tuple that \<open>RFC3442.__init__\<close> appends for one (subnet, gateway) pair.\<close>

definition item_route ::
  "(string \<Rightarrow> ipnetwork result) \<Rightarrow> (string \<Rightarrow> 32 word result) \<Rightarrow>
   string \<times> string \<Rightarrow> route result" where
  "item_route IPNetwork IPAddress item =
     (case IPNetwork (fst item) of
        Inl e \<Rightarrow> Inl e
      | Inr net \<Rightarrow>
          (case IPAddress (snd item) of
             Inl e \<Rightarrow> Inl e
           | Inr gateway \<Rightarrow>
               Inr (network net, prefixlen net, words (network net), words gateway)))"

text \<open>
  Modelled from the spec: what \<open>netaddr\<close>'s constructors, which are not under \<open>src/\<close>,
  return on the subnet and gateway strings of the specification's examples; every
  other string is taken to raise \<open>AddrFormatError\<close>.
\<close>

definition example_IPNetwork :: "string \<Rightarrow> ipnetwork result" where
  "example_IPNetwork s =
     (if s = ''10.0.0.0/8'' then Inr \<lparr>ip_value = 0x0A000000, prefixlen = 8\<rparr>
      else if s = ''0.0.0.0/0'' then Inr \<lparr>ip_value = 0, prefixlen = 0\<rparr>
      else if s = ''192.168.1.0/25'' then Inr \<lparr>ip_value = 0xC0A80100, prefixlen = 25\<rparr>
      else Inl AddrFormatError)"

definition example_IPAddress :: "string \<Rightarrow> 32 word result" where
  "example_IPAddress s =
     (if s = ''10.0.0.1'' then Inr 0x0A000001
      else if s = ''192.168.1.1'' then Inr 0xC0A80101
      else Inl AddrFormatError)"

text \<open>
  The encoding of one route entry: the prefix length, the leading
  \<open>ceil(prefixlen / 8)\<close> octets of the network address, the gateway's octets.
\<close>

definition route_fragment :: "route \<Rightarrow> nat list" where
  "route_fragment route =
     fst (snd route) # take ((fst (snd route) + 7) div 8) (fst (snd (snd route)))
       @ snd (snd (snd route))"

section \<open>The suboption decoder\<close>

declare parseSuboption.simps [simp del]
declare decodeSuboptionAttr.simps [simp del]
declare suboption_entries.simps [simp del]

lemma parseSuboption_short:
  "length data < 2 \<Longrightarrow> parseSuboption data = Inl (ValueError_expected_2_bytes (length data))"
  by (subst parseSuboption.simps) simp

lemma parseSuboption_tlv:
  "parseSuboption (i # length v # v @ rest) =
     (if rest = [] then Inr [i \<mapsto> v]
      else case parseSuboption rest of Inl e \<Rightarrow> Inl e | Inr m \<Rightarrow> Inr ([i \<mapsto> v] ++ m))"
  by (subst parseSuboption.simps) (simp add: unpack2_def py_slice_def py_slice_from_def)

lemma parseSuboption_tlv_last: "parseSuboption (i # length v # v) = Inr [i \<mapsto> v]"
  using parseSuboption_tlv [of i v "[]"] by simp

lemma parseSuboption_truncated:
  "length v < n \<Longrightarrow>
   parseSuboption (i # n # v) = Inl (ValueError_format_mismatch i n (length v))"
  by (subst parseSuboption.simps) (simp add: unpack2_def py_slice_def)

lemma wire_Cons: "wire ((i, v) # tlvs) = i # length v # v @ wire tlvs"
  by (simp add: wire_def tlv_bytes_def)

lemma wire_Nil: "wire [] = []"
  by (simp add: wire_def)

lemma wire_eq_Nil: "wire tlvs = [] \<longleftrightarrow> tlvs = []"
  by (cases tlvs) (auto simp: wire_Cons wire_Nil)

lemma parseSuboption_wire:
  "tlvs \<noteq> [] \<Longrightarrow> parseSuboption (wire tlvs) = Inr (map_of (rev tlvs))"
proof (induction tlvs)
  case Nil
  then show ?case by simp
next
  case (Cons tlv tlvs)
  obtain i v where tlv: "tlv = (i, v)" by (cases tlv)
  show ?case
  proof (cases "tlvs = []")
    case True
    then show ?thesis by (auto simp add: tlv wire_Cons wire_Nil parseSuboption_tlv_last fun_eq_iff)
  next
    case False
    with Cons.IH show ?thesis
      by (simp add: tlv wire_Cons parseSuboption_tlv wire_eq_Nil)
  qed
qed

lemma suboption_entries_tlv:
  "suboption_entries (i # length v # v @ rest) =
     (if rest = [] then Inr [(i, v)]
      else case suboption_entries rest of Inl e \<Rightarrow> Inl e | Inr es \<Rightarrow> Inr ((i, v) # es))"
  by (subst suboption_entries.simps) (simp add: unpack2_def py_slice_def py_slice_from_def)

lemma suboption_entries_tlv_last: "suboption_entries (i # length v # v) = Inr [(i, v)]"
  using suboption_entries_tlv [of i v "[]"] by simp

lemma suboption_entries_wire:
  "tlvs \<noteq> [] \<Longrightarrow> suboption_entries (wire tlvs) = Inr tlvs"
proof (induction tlvs)
  case Nil
  then show ?case by simp
next
  case (Cons tlv tlvs)
  obtain i v where tlv: "tlv = (i, v)" by (cases tlv)
  show ?case
  proof (cases "tlvs = []")
    case True
    then show ?thesis by (simp add: tlv wire_Cons wire_Nil suboption_entries_tlv_last)
  next
    case False
    with Cons.IH show ?thesis
      by (simp add: tlv wire_Cons suboption_entries_tlv wire_eq_Nil)
  qed
qed

lemma suboption_entries_sound:
  "suboption_entries data = Inr es \<Longrightarrow> es \<noteq> [] \<and> data = wire es"
proof (induction data arbitrary: es rule: suboption_entries.induct)
  case (1 data)
  show ?case
  proof (cases "length data < 2")
    case True
    with "1.prems" show ?thesis by (subst (asm) suboption_entries.simps) simp
  next
    case False
    then obtain a n r where d: "data = a # n # r"
      by (cases data; cases "tl data") auto
    let ?v = "take n r"
    show ?thesis
    proof (cases "length ?v = n")
      case False
      then have "length r < n" by simp
      with "1.prems" show ?thesis
        by (subst (asm) suboption_entries.simps) (simp add: d unpack2_def py_slice_def)
    next
      case len: True
      have split: "data = a # length ?v # ?v @ drop n r"
        using len by (simp add: d)
      show ?thesis
      proof (cases "drop n r = []")
        case True
        with "1.prems" split len show ?thesis
          by (subst (asm) split, subst (asm) suboption_entries_tlv)
             (auto simp: wire_Cons wire_Nil)
      next
        case nonempty: False
        from "1.prems" obtain es' where es': "suboption_entries (drop n r) = Inr es'"
          and es: "es = (a, ?v) # es'"
          using nonempty
          by (subst (asm) split, subst (asm) suboption_entries_tlv)
             (auto split: sum.splits)
        have "es' \<noteq> [] \<and> drop n r = wire es'"
          using "1.IH"[of "(a, n)" a n ?v es'] len nonempty es'
          by (simp add: d unpack2_def py_slice_def py_slice_from_def)
        then show ?thesis
          using es split len by (simp add: wire_Cons)
      qed
    qed
  qed
qed

lemma parseSuboption_entries:
  "parseSuboption data =
     (case suboption_entries data of Inl e \<Rightarrow> Inl e | Inr es \<Rightarrow> Inr (map_of (rev es)))"
proof (induction data rule: parseSuboption.induct)
  case (1 data)
  show ?case
    apply (subst parseSuboption.simps)
    apply (subst suboption_entries.simps)
    using 1
    apply (auto simp: Let_def split: sum.splits prod.splits)
    done
qed


lemma consumed_wire: "consumed tlvs = length (wire tlvs)"
  by (induction tlvs) (auto simp: consumed_def wire_def tlv_bytes_def)

lemma parseSuboption_wellformed_iff:
  "(\<exists>m. parseSuboption data = Inr m) \<longleftrightarrow> (\<exists>tlvs. tlvs \<noteq> [] \<and> data = wire tlvs)"
proof
  assume "\<exists>m. parseSuboption data = Inr m"
  then obtain es where "suboption_entries data = Inr es"
    by (auto simp: parseSuboption_entries split: sum.splits)
  then show "\<exists>tlvs. tlvs \<noteq> [] \<and> data = wire tlvs"
    using suboption_entries_sound by blast
next
  assume "\<exists>tlvs. tlvs \<noteq> [] \<and> data = wire tlvs"
  then show "\<exists>m. parseSuboption data = Inr m"
    using parseSuboption_wire by blast
qed

lemma parseSuboption_remainder:
  assumes "tlvs \<noteq> []" and "rest \<noteq> []"
  shows "parseSuboption (wire tlvs @ rest) =
           (case parseSuboption rest of
              Inl e \<Rightarrow> Inl e
            | Inr m \<Rightarrow> Inr (map_of (rev tlvs) ++ m))"
  using assms
proof (induction tlvs)
  case Nil
  then show ?case by simp
next
  case (Cons tlv tlvs)
  obtain i v where tlv: "tlv = (i, v)" by (cases tlv)
  show ?case
  proof (cases "tlvs = []")
    case True
    with Cons.prems show ?thesis
      by (auto simp add: tlv wire_Cons wire_Nil parseSuboption_tlv fun_eq_iff map_add_def
               split: sum.splits option.splits)
  next
    case False
    with Cons show ?thesis
      by (auto simp add: tlv wire_Cons parseSuboption_tlv split: sum.splits)
  qed
qed

text \<open>
  Claim C1. On a well-formed buffer, the concatenation of one or more suboptions in wire
  form (so at least two bytes, every length byte matching the bytes that follow),
  \<open>_parseSuboption\<close> returns a mapping and does not raise; the entries it parses are the
  suboptions of the buffer, and the bytes they consume add up to the length of the buffer.
\<close>

theorem wellformed_buffer_decodes_whole:
  assumes "tlvs \<noteq> []"
  shows "2 \<le> length (wire tlvs) \<and>
         parseSuboption (wire tlvs) = Inr (map_of (rev tlvs)) \<and>
         suboption_entries (wire tlvs) = Inr tlvs \<and>
         consumed tlvs = length (wire tlvs)"
proof -
  obtain i v rest where "tlvs = (i, v) # rest"
    using assms by (cases tlvs) auto
  then have "2 \<le> length (wire tlvs)" by (simp add: wire_Cons)
  then show ?thesis
    using assms by (simp add: parseSuboption_wire suboption_entries_wire consumed_wire)
qed

text \<open>A buffer of two suboptions, seven bytes.\<close>

theorem wellformed_buffer_decodes_whole_witness:
  "[(1, [7]), (2, [8, 9])] \<noteq> [] \<and>
   parseSuboption [1, 1, 7, 2, 2, 8, 9] = Inr (map_of [(2, [8, 9]), (1, [7])]) \<and>
   suboption_entries [1, 1, 7, 2, 2, 8, 9] = Inr [(1, [7]), (2, [8, 9])] \<and>
   consumed [(1, [7]), (2, [8, 9])] = length [1, 1, 7, 2, 2, 8, 9 :: nat]"
proof -
  have w: "wire [(1, [7]), (2, [8, 9])] = [1, 1, 7, 2, 2, 8, 9]"
    by (simp add: wire_def tlv_bytes_def)
  show ?thesis
    using wellformed_buffer_decodes_whole [of "[(1, [7]), (2, [8, 9])]"] unfolding w by simp
qed

text \<open>
  Claim C3. When a well-formed buffer holds two suboptions with the same id, and none
  with that id after the second, the returned mapping has the value of the second one
  at that id: the last occurrence wins.
\<close>

theorem last_occurrence_wins:
  assumes "k \<notin> fst ` set post"
  shows "\<exists>m. parseSuboption (wire (pre @ (k, v1) # mid @ (k, v2) # post)) = Inr m \<and>
             m k = Some v2"
proof -
  let ?tlvs = "pre @ (k, v1) # mid @ (k, v2) # post"
  have "map_of (rev post) k = None"
    using assms by (simp add: map_of_eq_None_iff)
  then have "map_of (rev ?tlvs) k = Some v2"
    by (simp add: map_add_def)
  moreover have "parseSuboption (wire ?tlvs) = Inr (map_of (rev ?tlvs))"
    by (rule parseSuboption_wire) simp
  ultimately show ?thesis by blast
qed

text \<open>Id 1 occurs twice, with values \<open>[7]\<close> and \<open>[8, 9]\<close>.\<close>

theorem last_occurrence_wins_witness:
  "(1::nat) \<notin> fst ` set [(4, [1::nat])] \<and>
   (\<exists>m. parseSuboption [1, 1, 7, 3, 0, 1, 2, 8, 9, 4, 1, 1] = Inr m \<and> m 1 = Some [8, 9])"
proof -
  have w: "wire ([] @ (1, [7]) # [(3, [])] @ (1, [8, 9]) # [(4, [1])]) =
             [1, 1, 7, 3, 0, 1, 2, 8, 9, 4, 1, 1]"
    by (simp add: wire_def tlv_bytes_def)
  show ?thesis
    using last_occurrence_wins [of 1 "[(4, [1])]" "[]" "[7]" "[(3, [])]" "[8, 9]"]
    unfolding w by simp
qed

text \<open>
  Claim C4. \<open>_parseSuboption\<close> raises exactly on the buffers that are not well-formed.
  It raises on a buffer of fewer than two bytes, on a declared length that exceeds the
  bytes that remain, and when the remainder after well-formed suboptions raises; it
  raises on \<open>[5]\<close> and on \<open>[1, 10, 0x41]\<close>.
\<close>

theorem format_error_exactly_on_malformed:
  "((\<exists>e. parseSuboption data = Inl e) \<longleftrightarrow> \<not> (\<exists>tlvs. tlvs \<noteq> [] \<and> data = wire tlvs)) \<and>
   (length data < 2 \<longrightarrow>
      parseSuboption data = Inl (ValueError_expected_2_bytes (length data))) \<and>
   (length v < n \<longrightarrow>
      parseSuboption (i # n # v) = Inl (ValueError_format_mismatch i n (length v))) \<and>
   (tlvs \<noteq> [] \<and> rest \<noteq> [] \<and> parseSuboption rest = Inl e \<longrightarrow>
      parseSuboption (wire tlvs @ rest) = Inl e) \<and>
   parseSuboption [5] = Inl (ValueError_expected_2_bytes 1) \<and>
   parseSuboption [1, 10, 0x41] = Inl (ValueError_format_mismatch 1 10 1)"
proof -
  have "(\<exists>e. parseSuboption data = Inl e) \<longleftrightarrow> \<not> (\<exists>m. parseSuboption data = Inr m)"
    by (cases "parseSuboption data") auto
  then have iff: "(\<exists>e. parseSuboption data = Inl e) \<longleftrightarrow>
      \<not> (\<exists>tlvs. tlvs \<noteq> [] \<and> data = wire tlvs)"
    by (simp only: parseSuboption_wellformed_iff)
  have five: "parseSuboption [5] = Inl (ValueError_expected_2_bytes 1)"
    using parseSuboption_short [of "[5]"] by simp
  have trunc: "parseSuboption [1, 10, 0x41] = Inl (ValueError_format_mismatch 1 10 1)"
    using parseSuboption_truncated [of "[0x41]" 10 1] by simp
  show ?thesis
    using iff five trunc
    by (simp add: parseSuboption_short parseSuboption_truncated parseSuboption_remainder)
qed

text \<open>A one-byte remainder, the empty buffer, and a truncated second suboption.\<close>

theorem format_error_exactly_on_malformed_witness:
  "(\<exists>e. parseSuboption [1, 1, 7, 2] = Inl e) \<and>
   \<not> (\<exists>tlvs. tlvs \<noteq> [] \<and> [1, 1, 7, 2] = wire tlvs) \<and>
   parseSuboption [] = Inl (ValueError_expected_2_bytes 0) \<and>
   parseSuboption [2, 3, 8, 9] = Inl (ValueError_format_mismatch 2 3 2) \<and>
   parseSuboption [1, 1, 7, 2, 3, 8, 9] = Inl (ValueError_format_mismatch 2 3 2)"
proof -
  have rest: "parseSuboption [2, 3, 8, 9] = Inl (ValueError_format_mismatch 2 3 2)"
    using parseSuboption_truncated [of "[8, 9]" 3 2] by simp
  have one: "parseSuboption [2] = Inl (ValueError_expected_2_bytes 1)"
    using parseSuboption_short [of "[2]"] by simp
  have w: "wire [(1, [7])] = [1, 1, 7]"
    by (simp add: wire_def tlv_bytes_def)
  have "parseSuboption [1, 1, 7, 2] = Inl (ValueError_expected_2_bytes 1) \<and>
        parseSuboption [] = Inl (ValueError_expected_2_bytes 0)"
    using format_error_exactly_on_malformed
      [of "[]" "[]" 0 0 "[(1, [7])]" "[2]" "ValueError_expected_2_bytes 1"] one
    unfolding w by simp
  then show ?thesis
    using format_error_exactly_on_malformed [of "[1, 1, 7, 2]" "[8, 9]" 3 2 "[(1, [7])]"
        "[2, 3, 8, 9]" "ValueError_format_mismatch 2 3 2"] rest
    unfolding w by simp
qed


section \<open>The attribute decoder and the constructor\<close>

lemma decodeSuboptionAttr_short:
  "length suboption_value < 2 \<Longrightarrow> decodeSuboptionAttr suboption_value = Inr []"
  by (subst decodeSuboptionAttr.simps) simp

lemma decodeSuboptionAttr_header:
  "decodeSuboptionAttr (t # n # v) =
     (if n < length v
      then case decodeSuboptionAttr (drop n v) of
             Inl e \<Rightarrow> Inl e
           | Inr later \<Rightarrow> Inr ((t, take n v) # later)
      else Inr [(t, v)])"
  by (subst decodeSuboptionAttr.simps)
     (auto simp: unpack2_def py_slice_def py_slice_from_def split: sum.splits)

lemma decodeSuboptionAttr_total: "\<exists>attrs. decodeSuboptionAttr suboption_value = Inr attrs"
proof (induction suboption_value rule: decodeSuboptionAttr.induct)
  case (1 suboption_value)
  show ?case
  proof (cases "length suboption_value < 2")
    case True
    then show ?thesis by (simp add: decodeSuboptionAttr_short)
  next
    case False
    then obtain t n v where sv: "suboption_value = t # n # v"
      by (cases suboption_value; cases "tl suboption_value") auto
    show ?thesis
    proof (cases "n < length v")
      case True
      then have "\<exists>attrs. decodeSuboptionAttr (drop n v) = Inr attrs"
        using "1.IH" [of "(t, n)" t n "[(t, take n v)]"]
        by (simp add: sv unpack2_def py_slice_def py_slice_from_def)
      with True show ?thesis
        by (auto simp: sv decodeSuboptionAttr_header)
    next
      case False
      then show ?thesis by (simp add: sv decodeSuboptionAttr_header)
    qed
  qed
qed

text \<open>
  Claim C5. \<open>_decodeSuboptionAttr\<close> returns a sequence on every input and never raises.
  An input of fewer than two bytes, such as \<open>[]\<close> or \<open>[0x01]\<close>, gives the empty
  sequence. When the declared attribute length exceeds the bytes that remain, the
  attribute's value is those remaining bytes, without an error; when bytes remain after
  an attribute, the attributes decoded from them follow it.
\<close>

theorem attribute_decoder_total_and_lenient:
  "(\<exists>attrs. decodeSuboptionAttr suboption_value = Inr attrs) \<and>
   (length suboption_value < 2 \<longrightarrow> decodeSuboptionAttr suboption_value = Inr []) \<and>
   decodeSuboptionAttr [] = Inr [] \<and>
   decodeSuboptionAttr [0x01] = Inr [] \<and>
   (length v < n \<longrightarrow> decodeSuboptionAttr (t # n # v) = Inr [(t, v)]) \<and>
   (n < length v \<longrightarrow>
      (\<exists>later. decodeSuboptionAttr (drop n v) = Inr later \<and>
               decodeSuboptionAttr (t # n # v) = Inr ((t, take n v) # later)))"
  using decodeSuboptionAttr_total [of suboption_value] decodeSuboptionAttr_total [of "drop n v"]
  by (auto simp: decodeSuboptionAttr_short decodeSuboptionAttr_header)

text \<open>
  A one-byte input, an attribute that declares ten bytes and has one, and a truncated
  attribute after a complete one.
\<close>

theorem attribute_decoder_total_and_lenient_witness:
  "decodeSuboptionAttr [9] = Inr [] \<and>
   decodeSuboptionAttr [3, 10, 0x41] = Inr [(3, [0x41])] \<and>
   decodeSuboptionAttr [4, 5, 0x42] = Inr [(4, [0x42])] \<and>
   decodeSuboptionAttr [3, 1, 0x41, 4, 5, 0x42] = Inr [(3, [0x41]), (4, [0x42])]"
  using attribute_decoder_total_and_lenient [of "[9]" "[0x41]" 10 3]
    attribute_decoder_total_and_lenient [of "[9]" "[0x42]" 5 4]
    attribute_decoder_total_and_lenient [of "[9]" "[0x41, 4, 5, 0x42]" 1 3]
  by simp

lemma RFC3046_init_Inr:
  assumes "RFC3046_init data = Inr self"
  shows "raw self = data" and "\<exists>m. parseSuboption data = Inr m"
  using assms by (auto simp: RFC3046_init_def split: sum.splits)

text \<open>
  Claim C10. \<open>RFC3046.__init__\<close> on a buffer of length 0 or 1 raises the decoder's
  "expected at least 2 bytes" error, since it decodes the buffer unconditionally. So
  every instance that is constructed holds a raw buffer of at least two bytes: its
  \<open>__nonzero__\<close> is true and its \<open>__len__\<close> is not 0.
\<close>

theorem constructor_rejects_short_buffers:
  "(length data < 2 \<longrightarrow>
      RFC3046_init data = Inl (ValueError_expected_2_bytes (length data))) \<and>
   (RFC3046_init data = Inr self \<longrightarrow> raw self = data \<and> 2 \<le> len self \<and> nonzero self)"
proof -
  have short: "RFC3046_init data = Inl (ValueError_expected_2_bytes (length data))"
    if "length data < 2"
    using that by (simp add: RFC3046_init_def parseSuboption_short)
  have long: "raw self = data \<and> 2 \<le> len self \<and> nonzero self" if "RFC3046_init data = Inr self"
  proof -
    have "\<not> length data < 2" using short that by auto
    then have "2 \<le> length data" and "0 < length data" by linarith+
    then show ?thesis
      using RFC3046_init_Inr(1) [OF that] by (simp add: len_def nonzero_def)
  qed
  show ?thesis using short long by blast
qed

text \<open>The empty buffer, a one-byte buffer, and a buffer that constructs an instance.\<close>

theorem constructor_rejects_short_buffers_witness:
  "RFC3046_init [] = Inl (ValueError_expected_2_bytes 0) \<and>
   RFC3046_init [5] = Inl (ValueError_expected_2_bytes 1) \<and>
   RFC3046_init [1, 1, 7] =
     Inr \<lparr>raw = [1, 1, 7], suboptions = [1 \<mapsto> [7]],
          agent_circuit_id = [], agent_remote_id = []\<rparr> \<and>
   nonzero \<lparr>raw = [1, 1, 7], suboptions = [1 \<mapsto> [7]],
          agent_circuit_id = [], agent_remote_id = []\<rparr>"
proof -
  let ?self = "\<lparr>raw = [1, 1, 7], suboptions = [1 \<mapsto> [7]],
                  agent_circuit_id = [], agent_remote_id = []\<rparr>"
  have init: "RFC3046_init [1, 1, 7] = Inr ?self"
    using parseSuboption_tlv_last [of 1 "[7]"]
    by (simp add: RFC3046_init_def decode_if_present_def decodeSuboptionAttr_short)
  show ?thesis
    using constructor_rejects_short_buffers [of "[]"]
      constructor_rejects_short_buffers [of "[5]"]
      constructor_rejects_short_buffers [of "[1, 1, 7]" ?self] init
    by simp
qed

section \<open>The accessors\<close>

lemma vlan_add_eq_or:
  fixes a b :: nat
  assumes "b < 256"
  shows "push_bit 8 a + b = push_bit 8 a OR b"
proof (rule disjunctive_add)
  fix n
  have "b < 2 ^ 8" using assms by simp
  then have "take_bit 8 b = b" by (simp add: take_bit_nat_eq_self_iff)
  then have "bit b n \<Longrightarrow> n < 8"
    by (metis bit_take_bit_iff)
  then show "\<not> bit (push_bit 8 a) n \<or> \<not> bit b n"
    by (auto simp: bit_push_bit_iff)
qed

text \<open>
  Claim C8. When the Circuit ID attribute list is not empty and \<open>(type, v)\<close> is its first
  attribute, \<open>AgentCircuitId\<close> returns \<open>(vlan, module, port)\<close> with
  \<open>vlan = (v[0] << 8) + v[1]\<close>, \<open>module = v[2]\<close>, \<open>port = v[3]\<close> if the type is 0 and
  \<open>v\<close> has four bytes, and \<open>None\<close> for every other (type, length). On bytes the sum is
  the bitwise or \<open>(v[0] << 8) | v[1]\<close>, a 16-bit big-endian number. The bytes
  \<open>[0x01, 0x02, 0x03, 0x04]\<close> give \<open>(258, 3, 4)\<close>.
\<close>

theorem circuit_id_decoding:
  assumes "agent_circuit_id self = (attr_type, v) # rest"
  shows "AgentCircuitId self =
           Inr (if attr_type = 0 \<and> length v = 4
                then Some (push_bit 8 (v ! 0) + v ! 1, v ! 2, v ! 3) else None) \<and>
         (v ! 1 < 256 \<longrightarrow> push_bit 8 (v ! 0) + v ! 1 = push_bit 8 (v ! 0) OR v ! 1) \<and>
         (v ! 0 < 256 \<and> v ! 1 < 256 \<longrightarrow> push_bit 8 (v ! 0) + v ! 1 < 2 ^ 16)"
proof -
  have "push_bit 8 (v ! 0) + v ! 1 < 2 ^ 16" if "v ! 0 < 256" "v ! 1 < 256"
    using that by (simp add: push_bit_eq_mult)
  then show ?thesis
    using assms by (simp add: AgentCircuitId_def py_index_def vlan_add_eq_or)
qed

text \<open>
  The instance constructed from suboption 1 with value \<open>[0, 4, 0x01, 0x02, 0x03, 0x04]\<close>.
\<close>

theorem circuit_id_decoding_witness:
  "RFC3046_init [1, 6, 0, 4, 0x01, 0x02, 0x03, 0x04] =
     Inr \<lparr>raw = [1, 6, 0, 4, 0x01, 0x02, 0x03, 0x04],
          suboptions = [1 \<mapsto> [0, 4, 0x01, 0x02, 0x03, 0x04]],
          agent_circuit_id = [(0, [0x01, 0x02, 0x03, 0x04])], agent_remote_id = []\<rparr> \<and>
   AgentCircuitId \<lparr>raw = [1, 6, 0, 4, 0x01, 0x02, 0x03, 0x04],
          suboptions = [1 \<mapsto> [0, 4, 0x01, 0x02, 0x03, 0x04]],
          agent_circuit_id = [(0, [0x01, 0x02, 0x03, 0x04])], agent_remote_id = []\<rparr> =
     Inr (Some (258, 3, 4)) \<and>
   (258 :: nat) = push_bit 8 1 OR 2"
proof -
  let ?self = "\<lparr>raw = [1, 6, 0, 4, 0x01, 0x02, 0x03, 0x04],
          suboptions = [1 \<mapsto> [0, 4, 0x01, 0x02, 0x03, 0x04]],
          agent_circuit_id = [(0, [0x01, 0x02, 0x03, 0x04])], agent_remote_id = []\<rparr>"
  have parse: "parseSuboption [1, 6, 0, 4, 0x01, 0x02, 0x03, 0x04] =
      Inr [1 \<mapsto> [0, 4, 0x01, 0x02, 0x03, 0x04]]"
    by (subst parseSuboption.simps) (simp add: unpack2_def py_slice_def)
  have attrs: "decodeSuboptionAttr [0, 4, 0x01, 0x02, 0x03, 0x04] = Inr [(0, [0x01, 0x02, 0x03, 0x04])]"
    by (simp add: decodeSuboptionAttr_header)
  have init: "RFC3046_init [1, 6, 0, 4, 0x01, 0x02, 0x03, 0x04] = Inr ?self"
    by (simp add: RFC3046_init_def decode_if_present_def parse attrs del: One_nat_def)
  show ?thesis
    using circuit_id_decoding [of ?self 0 "[0x01, 0x02, 0x03, 0x04]" "[]"] init
    by (simp add: push_bit_eq_mult)
qed


lemma hex_digit_facts:
  assumes "hex_digit c"
  shows "digit_value c = hex_value c" and "hex_value c < 16" and "\<not> isspace c"
    and "c \<noteq> 0" and "c \<noteq> 43" and "c \<noteq> 45" and "c \<noteq> 120" and "c \<noteq> 88"
    and "isalnum c" and "c < 256"
  using assms
  by (auto simp: hex_digit_def digit_value_def hex_value_def isspace_def isalnum_def)

lemma hex_value_48: "hex_value 48 = 0"
  by (simp add: hex_value_def)

lemma py_int16_hex_pair:
  assumes "hex_digit a" and "hex_digit b"
  shows "py_int16 [a, b] = Inr (int (16 * hex_value a + hex_value b))"
proof (cases "a = 48")
  case True
  then show ?thesis
    using hex_digit_facts [OF assms(2)]
    by (simp add: py_int16_def PyInt_FromString_def PyOS_strtol_def PyOS_strtoul_def
        strtoul_digits_def isspace_def hex_value_48)
next
  case False
  then show ?thesis
    using hex_digit_facts [OF assms(1)] hex_digit_facts [OF assms(2)]
    by (simp add: py_int16_def PyInt_FromString_def PyOS_strtol_def PyOS_strtoul_def
        strtoul_digits_def)
qed

lemma py_int16_ZZ: "py_int16 [90, 90] = Inl (ValueError_invalid_literal [90, 90])"
  by (simp add: py_int16_def PyInt_FromString_def PyOS_strtol_def PyOS_strtoul_def
        strtoul_digits_def isspace_def digit_value_def)


lemma py_map_py_chr:
  "\<forall>c\<in>set cs. c < 256 \<Longrightarrow> py_map py_chr cs = Inr (map (\<lambda>c. [c]) cs)"
  by (induction cs) (auto simp: py_chr_def)

lemma py_step2_Cons: "py_step2 (y # xs) = y # py_step2 (drop 1 xs)"
  by (cases xs) auto

lemma py_map_hex_of_pair:
  "\<forall>c\<in>set cs. hex_digit c \<Longrightarrow>
   py_map hex_of_pair
     (zip (py_step2 (map (\<lambda>c. [c]) cs)) (py_step2 (py_slice_from (map (\<lambda>c. [c]) cs) 1))) =
   Inr (hex_pairs cs)"
  by (induction cs rule: hex_pairs.induct)
     (simp_all add: py_slice_from_def py_step2_Cons hex_of_pair_def py_int16_hex_pair drop_map)

lemma AgentRemoteId_dash_hex:
  assumes "agent_remote_id self = (1, v) # rest" and "length v = 17"
    and "\<forall>c\<in>set v. c = 45 \<or> hex_digit c"
  shows "AgentRemoteId self = Inr (Some (hex_pairs (filter (\<lambda>c. c \<noteq> 45) v)))"
proof -
  let ?cs = "filter (\<lambda>c. c \<noteq> 45) v"
  have hex: "\<forall>c\<in>set ?cs. hex_digit c"
    using assms(3) by auto
  then have "\<forall>c\<in>set ?cs. c < 256"
    using hex_digit_facts(10) by blast
  then have chars: "py_map py_chr ?cs = Inr (map (\<lambda>c. [c]) ?cs)"
    by (rule py_map_py_chr)
  show ?thesis
    using assms(1,2)
    by (simp add: AgentRemoteId_def py_index_def chars py_map_hex_of_pair [OF hex]
          del: One_nat_def)
qed

lemma AgentRemoteId_other:
  assumes "agent_remote_id self = (t, v) # rest" and "\<not> (t = 1 \<and> length v = 17)"
  shows "AgentRemoteId self = Inr (if t = 0 \<and> length v = 6 then Some (map int v) else None)"
  using assms by (auto simp: AgentRemoteId_def py_index_def)

lemma AgentCircuitId_total: "\<exists>r. AgentCircuitId self = Inr r"
  by (cases "agent_circuit_id self") (auto simp: AgentCircuitId_def py_index_def)

text \<open>
  Claim C7. When the Remote ID attribute list is not empty and \<open>(type, v)\<close> is its first
  attribute: for type 0 and a 6-byte \<open>v\<close>, \<open>AgentRemoteId\<close> returns \<open>v\<close> unchanged; for
  type 1 and a 17-byte \<open>v\<close> of ASCII hexadecimal digits and dashes, it drops every dash
  (byte 45) and returns the bytes spelled by the consecutive pairs of digits. The string
  \<open>AA-BB-CC-DD-EE-FF\<close> gives \<open>[0xAA, 0xBB, 0xCC, 0xDD, 0xEE, 0xFF]\<close>.
\<close>

theorem remote_id_decoding:
  assumes "agent_remote_id self = (t, v) # rest"
  shows "(t = 0 \<and> length v = 6 \<longrightarrow> AgentRemoteId self = Inr (Some (map int v))) \<and>
         (t = 1 \<and> length v = 17 \<and> (\<forall>c\<in>set v. c = 45 \<or> hex_digit c) \<longrightarrow>
            AgentRemoteId self = Inr (Some (hex_pairs (filter (\<lambda>c. c \<noteq> 45) v))))"
  using assms AgentRemoteId_dash_hex [of self v rest] AgentRemoteId_other [of self t v rest]
  by auto


text \<open>
  The instances constructed from suboption 2 with the type-1 attribute
  \<open>AA-BB-CC-DD-EE-FF\<close> and with the type-0 attribute \<open>AA BB CC DD EE FF\<close>.
\<close>

theorem remote_id_decoding_witness:
  "RFC3046_init [2, 19, 1, 17, 65, 65, 45, 66, 66, 45, 67, 67, 45, 68, 68, 45, 69, 69, 45, 70, 70] =
     Inr \<lparr>raw = [2, 19, 1, 17, 65, 65, 45, 66, 66, 45, 67, 67, 45, 68, 68, 45, 69, 69, 45, 70, 70],
        suboptions = [2 \<mapsto> [1, 17, 65, 65, 45, 66, 66, 45, 67, 67, 45, 68, 68, 45, 69, 69, 45, 70, 70]],
        agent_circuit_id = [],
        agent_remote_id = [(1, [65, 65, 45, 66, 66, 45, 67, 67, 45, 68, 68, 45, 69, 69, 45, 70, 70])]\<rparr> \<and>
   AgentRemoteId \<lparr>raw = [2, 19, 1, 17, 65, 65, 45, 66, 66, 45, 67, 67, 45, 68, 68, 45, 69, 69, 45, 70, 70],
        suboptions = [2 \<mapsto> [1, 17, 65, 65, 45, 66, 66, 45, 67, 67, 45, 68, 68, 45, 69, 69, 45, 70, 70]],
        agent_circuit_id = [],
        agent_remote_id = [(1, [65, 65, 45, 66, 66, 45, 67, 67, 45, 68, 68, 45, 69, 69, 45, 70, 70])]\<rparr> =
     Inr (Some [0xAA, 0xBB, 0xCC, 0xDD, 0xEE, 0xFF]) \<and>
   RFC3046_init [2, 8, 0, 6, 0xAA, 0xBB, 0xCC, 0xDD, 0xEE, 0xFF] =
     Inr \<lparr>raw = [2, 8, 0, 6, 0xAA, 0xBB, 0xCC, 0xDD, 0xEE, 0xFF],
        suboptions = [2 \<mapsto> [0, 6, 0xAA, 0xBB, 0xCC, 0xDD, 0xEE, 0xFF]],
        agent_circuit_id = [],
        agent_remote_id = [(0, [0xAA, 0xBB, 0xCC, 0xDD, 0xEE, 0xFF])]\<rparr> \<and>
   AgentRemoteId \<lparr>raw = [2, 8, 0, 6, 0xAA, 0xBB, 0xCC, 0xDD, 0xEE, 0xFF],
        suboptions = [2 \<mapsto> [0, 6, 0xAA, 0xBB, 0xCC, 0xDD, 0xEE, 0xFF]],
        agent_circuit_id = [],
        agent_remote_id = [(0, [0xAA, 0xBB, 0xCC, 0xDD, 0xEE, 0xFF])]\<rparr> =
     Inr (Some [0xAA, 0xBB, 0xCC, 0xDD, 0xEE, 0xFF])"
proof -
  let ?a = "\<lparr>raw = [2, 19, 1, 17, 65, 65, 45, 66, 66, 45, 67, 67, 45, 68, 68, 45, 69, 69, 45, 70, 70],
        suboptions = [2 \<mapsto> [1, 17, 65, 65, 45, 66, 66, 45, 67, 67, 45, 68, 68, 45, 69, 69, 45, 70, 70]],
        agent_circuit_id = [],
        agent_remote_id = [(1, [65, 65, 45, 66, 66, 45, 67, 67, 45, 68, 68, 45, 69, 69, 45, 70, 70])]\<rparr>"
  have parse_a: "parseSuboption [2, 19, 1, 17, 65, 65, 45, 66, 66, 45, 67, 67, 45, 68, 68, 45, 69, 69, 45, 70, 70] = Inr [2 \<mapsto> [1, 17, 65, 65, 45, 66, 66, 45, 67, 67, 45, 68, 68, 45, 69, 69, 45, 70, 70]]"
    by (subst parseSuboption.simps) (simp add: unpack2_def py_slice_def)
  have attrs_a: "decodeSuboptionAttr [1, 17, 65, 65, 45, 66, 66, 45, 67, 67, 45, 68, 68, 45, 69, 69, 45, 70, 70] = Inr [(1, [65, 65, 45, 66, 66, 45, 67, 67, 45, 68, 68, 45, 69, 69, 45, 70, 70])]"
    by (simp add: decodeSuboptionAttr_header)
  have init_a: "RFC3046_init [2, 19, 1, 17, 65, 65, 45, 66, 66, 45, 67, 67, 45, 68, 68, 45, 69, 69, 45, 70, 70] = Inr ?a"
    by (simp add: RFC3046_init_def decode_if_present_def parse_a attrs_a del: One_nat_def)
  let ?b = "\<lparr>raw = [2, 8, 0, 6, 0xAA, 0xBB, 0xCC, 0xDD, 0xEE, 0xFF],
        suboptions = [2 \<mapsto> [0, 6, 0xAA, 0xBB, 0xCC, 0xDD, 0xEE, 0xFF]],
        agent_circuit_id = [],
        agent_remote_id = [(0, [0xAA, 0xBB, 0xCC, 0xDD, 0xEE, 0xFF])]\<rparr>"
  have parse_b: "parseSuboption [2, 8, 0, 6, 0xAA, 0xBB, 0xCC, 0xDD, 0xEE, 0xFF] = Inr [2 \<mapsto> [0, 6, 0xAA, 0xBB, 0xCC, 0xDD, 0xEE, 0xFF]]"
    by (subst parseSuboption.simps) (simp add: unpack2_def py_slice_def)
  have attrs_b: "decodeSuboptionAttr [0, 6, 0xAA, 0xBB, 0xCC, 0xDD, 0xEE, 0xFF] = Inr [(0, [0xAA, 0xBB, 0xCC, 0xDD, 0xEE, 0xFF])]"
    by (simp add: decodeSuboptionAttr_header)
  have init_b: "RFC3046_init [2, 8, 0, 6, 0xAA, 0xBB, 0xCC, 0xDD, 0xEE, 0xFF] = Inr ?b"
    by (simp add: RFC3046_init_def decode_if_present_def parse_b attrs_b del: One_nat_def)
  have hex: "\<forall>c\<in>set [65, 65, 45, 66, 66, 45, 67, 67, 45, 68, 68, 45, 69, 69, 45, 70, 70]. c = 45 \<or> hex_digit c"
    by (simp add: hex_digit_def)
  have pairs: "hex_pairs (filter (\<lambda>c. c \<noteq> 45) [65, 65, 45, 66, 66, 45, 67, 67, 45, 68, 68, 45, 69, 69, 45, 70, 70]) =
      [0xAA, 0xBB, 0xCC, 0xDD, 0xEE, 0xFF]"
    by (simp add: hex_value_def)
  have "AgentRemoteId ?a = Inr (Some [0xAA, 0xBB, 0xCC, 0xDD, 0xEE, 0xFF])"
    using remote_id_decoding [of ?a 1 "[65, 65, 45, 66, 66, 45, 67, 67, 45, 68, 68, 45, 69, 69, 45, 70, 70]" "[]"] hex
    unfolding pairs by simp
  moreover have "AgentRemoteId ?b = Inr (Some [0xAA, 0xBB, 0xCC, 0xDD, 0xEE, 0xFF])"
    using remote_id_decoding [of ?b 0 "[0xAA, 0xBB, 0xCC, 0xDD, 0xEE, 0xFF]" "[]"] by simp
  ultimately show ?thesis
    using init_a init_b by simp
qed

text \<open>
  Claim C2 says that the two accessors never raise. \<open>AgentRemoteId\<close> does: the instance
  constructed from suboption 2 with a type-1 attribute of seventeen bytes \<open>Z\<close> reaches
  \<open>int('ZZ', 16)\<close>, whose \<open>ValueError\<close> is not caught.
\<close>

theorem remote_id_raises_on_bad_hex:
  "RFC3046_init [2, 19, 1, 17, 90, 90, 90, 90, 90, 90, 90, 90, 90, 90, 90, 90, 90, 90, 90, 90, 90] =
     Inr \<lparr>raw = [2, 19, 1, 17, 90, 90, 90, 90, 90, 90, 90, 90, 90, 90, 90, 90, 90, 90, 90, 90, 90],
        suboptions = [2 \<mapsto> [1, 17, 90, 90, 90, 90, 90, 90, 90, 90, 90, 90, 90, 90, 90, 90, 90, 90, 90]],
        agent_circuit_id = [],
        agent_remote_id = [(1, [90, 90, 90, 90, 90, 90, 90, 90, 90, 90, 90, 90, 90, 90, 90, 90, 90])]\<rparr> \<and>
   AgentRemoteId \<lparr>raw = [2, 19, 1, 17, 90, 90, 90, 90, 90, 90, 90, 90, 90, 90, 90, 90, 90, 90, 90, 90, 90],
        suboptions = [2 \<mapsto> [1, 17, 90, 90, 90, 90, 90, 90, 90, 90, 90, 90, 90, 90, 90, 90, 90, 90, 90]],
        agent_circuit_id = [],
        agent_remote_id = [(1, [90, 90, 90, 90, 90, 90, 90, 90, 90, 90, 90, 90, 90, 90, 90, 90, 90])]\<rparr> =
     Inl (ValueError_invalid_literal [90, 90])"
proof -
  let ?z = "\<lparr>raw = [2, 19, 1, 17, 90, 90, 90, 90, 90, 90, 90, 90, 90, 90, 90, 90, 90, 90, 90, 90, 90],
        suboptions = [2 \<mapsto> [1, 17, 90, 90, 90, 90, 90, 90, 90, 90, 90, 90, 90, 90, 90, 90, 90, 90, 90]],
        agent_circuit_id = [],
        agent_remote_id = [(1, [90, 90, 90, 90, 90, 90, 90, 90, 90, 90, 90, 90, 90, 90, 90, 90, 90])]\<rparr>"
  have parse_z: "parseSuboption [2, 19, 1, 17, 90, 90, 90, 90, 90, 90, 90, 90, 90, 90, 90, 90, 90, 90, 90, 90, 90] = Inr [2 \<mapsto> [1, 17, 90, 90, 90, 90, 90, 90, 90, 90, 90, 90, 90, 90, 90, 90, 90, 90, 90]]"
    by (subst parseSuboption.simps) (simp add: unpack2_def py_slice_def)
  have attrs_z: "decodeSuboptionAttr [1, 17, 90, 90, 90, 90, 90, 90, 90, 90, 90, 90, 90, 90, 90, 90, 90, 90, 90] = Inr [(1, [90, 90, 90, 90, 90, 90, 90, 90, 90, 90, 90, 90, 90, 90, 90, 90, 90])]"
    by (simp add: decodeSuboptionAttr_header)
  have init_z: "RFC3046_init [2, 19, 1, 17, 90, 90, 90, 90, 90, 90, 90, 90, 90, 90, 90, 90, 90, 90, 90, 90, 90] = Inr ?z"
    by (simp add: RFC3046_init_def decode_if_present_def parse_z attrs_z del: One_nat_def)
  have "AgentRemoteId ?z = Inl (ValueError_invalid_literal [90, 90])"
    by (simp add: AgentRemoteId_def py_index_def py_chr_def py_slice_from_def hex_of_pair_def
        py_int16_ZZ)
  then show ?thesis
    using init_z by simp
qed

text \<open>
  Claim C2, amended. \<open>AgentCircuitId\<close> never raises. \<open>AgentRemoteId\<close> returns \<open>None\<close> on
  an empty attribute list; when the first attribute is not of type 1 with 17 bytes it
  returns the 6-byte value of a type-0 attribute and \<open>None\<close> for every other format;
  when the first attribute has type 1 and 17 bytes that are all dashes or ASCII
  hexadecimal digits it returns a value. Only a type-1 attribute of 17 bytes with other
  bytes can make it raise.
\<close>

theorem accessors_raise_only_on_bad_dash_hex:
  "(\<exists>r. AgentCircuitId self = Inr r) \<and>
   (agent_remote_id self = [] \<longrightarrow> AgentRemoteId self = Inr None) \<and>
   (agent_remote_id self = (t, v) # rest \<and> \<not> (t = 1 \<and> length v = 17) \<longrightarrow>
      AgentRemoteId self = Inr (if t = 0 \<and> length v = 6 then Some (map int v) else None)) \<and>
   (agent_remote_id self = (1, v) # rest \<and> length v = 17 \<and>
    (\<forall>c\<in>set v. c = 45 \<or> hex_digit c) \<longrightarrow>
      (\<exists>r. AgentRemoteId self = Inr r))"
proof -
  have "AgentRemoteId self = Inr None" if "agent_remote_id self = []"
    using that by (simp add: AgentRemoteId_def)
  then show ?thesis
    using AgentCircuitId_total [of self] AgentRemoteId_other [of self t v rest]
      AgentRemoteId_dash_hex [of self v rest]
    by auto
qed

text \<open>
  An instance without Remote ID, one with an unrecognised attribute (type 7), and one
  with the dash-separated type-1 attribute.
\<close>

theorem accessors_raise_only_on_bad_dash_hex_witness:
  "RFC3046_init [1, 1, 7] =
     Inr \<lparr>raw = [1, 1, 7], suboptions = [1 \<mapsto> [7]],
        agent_circuit_id = [], agent_remote_id = []\<rparr> \<and>
   AgentRemoteId \<lparr>raw = [1, 1, 7], suboptions = [1 \<mapsto> [7]],
        agent_circuit_id = [], agent_remote_id = []\<rparr> = Inr None \<and>
   (\<exists>r. AgentCircuitId \<lparr>raw = [1, 1, 7], suboptions = [1 \<mapsto> [7]],
        agent_circuit_id = [], agent_remote_id = []\<rparr> = Inr r) \<and>
   RFC3046_init [2, 4, 7, 2, 8, 9] =
     Inr \<lparr>raw = [2, 4, 7, 2, 8, 9],
        suboptions = [2 \<mapsto> [7, 2, 8, 9]],
        agent_circuit_id = [],
        agent_remote_id = [(7, [8, 9])]\<rparr> \<and>
   AgentRemoteId \<lparr>raw = [2, 4, 7, 2, 8, 9],
        suboptions = [2 \<mapsto> [7, 2, 8, 9]],
        agent_circuit_id = [],
        agent_remote_id = [(7, [8, 9])]\<rparr> = Inr None \<and>
   RFC3046_init [2, 19, 1, 17, 65, 65, 45, 66, 66, 45, 67, 67, 45, 68, 68, 45, 69, 69, 45, 70, 70] =
     Inr \<lparr>raw = [2, 19, 1, 17, 65, 65, 45, 66, 66, 45, 67, 67, 45, 68, 68, 45, 69, 69, 45, 70, 70],
        suboptions = [2 \<mapsto> [1, 17, 65, 65, 45, 66, 66, 45, 67, 67, 45, 68, 68, 45, 69, 69, 45, 70, 70]],
        agent_circuit_id = [],
        agent_remote_id = [(1, [65, 65, 45, 66, 66, 45, 67, 67, 45, 68, 68, 45, 69, 69, 45, 70, 70])]\<rparr> \<and>
   (\<exists>r. AgentRemoteId \<lparr>raw = [2, 19, 1, 17, 65, 65, 45, 66, 66, 45, 67, 67, 45, 68, 68, 45, 69, 69, 45, 70, 70],
        suboptions = [2 \<mapsto> [1, 17, 65, 65, 45, 66, 66, 45, 67, 67, 45, 68, 68, 45, 69, 69, 45, 70, 70]],
        agent_circuit_id = [],
        agent_remote_id = [(1, [65, 65, 45, 66, 66, 45, 67, 67, 45, 68, 68, 45, 69, 69, 45, 70, 70])]\<rparr> = Inr r)"
proof -
  let ?n = "\<lparr>raw = [1, 1, 7], suboptions = [1 \<mapsto> [7]],
        agent_circuit_id = [], agent_remote_id = []\<rparr>"
  have init_n: "RFC3046_init [1, 1, 7] = Inr ?n"
    using parseSuboption_tlv_last [of 1 "[7]"]
    by (simp add: RFC3046_init_def decode_if_present_def decodeSuboptionAttr_short)
  let ?u = "\<lparr>raw = [2, 4, 7, 2, 8, 9],
        suboptions = [2 \<mapsto> [7, 2, 8, 9]],
        agent_circuit_id = [],
        agent_remote_id = [(7, [8, 9])]\<rparr>"
  have parse_u: "parseSuboption [2, 4, 7, 2, 8, 9] = Inr [2 \<mapsto> [7, 2, 8, 9]]"
    by (subst parseSuboption.simps) (simp add: unpack2_def py_slice_def)
  have attrs_u: "decodeSuboptionAttr [7, 2, 8, 9] = Inr [(7, [8, 9])]"
    by (simp add: decodeSuboptionAttr_header)
  have init_u: "RFC3046_init [2, 4, 7, 2, 8, 9] = Inr ?u"
    by (simp add: RFC3046_init_def decode_if_present_def parse_u attrs_u del: One_nat_def)
  let ?a = "\<lparr>raw = [2, 19, 1, 17, 65, 65, 45, 66, 66, 45, 67, 67, 45, 68, 68, 45, 69, 69, 45, 70, 70],
        suboptions = [2 \<mapsto> [1, 17, 65, 65, 45, 66, 66, 45, 67, 67, 45, 68, 68, 45, 69, 69, 45, 70, 70]],
        agent_circuit_id = [],
        agent_remote_id = [(1, [65, 65, 45, 66, 66, 45, 67, 67, 45, 68, 68, 45, 69, 69, 45, 70, 70])]\<rparr>"
  have parse_a: "parseSuboption [2, 19, 1, 17, 65, 65, 45, 66, 66, 45, 67, 67, 45, 68, 68, 45, 69, 69, 45, 70, 70] = Inr [2 \<mapsto> [1, 17, 65, 65, 45, 66, 66, 45, 67, 67, 45, 68, 68, 45, 69, 69, 45, 70, 70]]"
    by (subst parseSuboption.simps) (simp add: unpack2_def py_slice_def)
  have attrs_a: "decodeSuboptionAttr [1, 17, 65, 65, 45, 66, 66, 45, 67, 67, 45, 68, 68, 45, 69, 69, 45, 70, 70] = Inr [(1, [65, 65, 45, 66, 66, 45, 67, 67, 45, 68, 68, 45, 69, 69, 45, 70, 70])]"
    by (simp add: decodeSuboptionAttr_header)
  have init_a: "RFC3046_init [2, 19, 1, 17, 65, 65, 45, 66, 66, 45, 67, 67, 45, 68, 68, 45, 69, 69, 45, 70, 70] = Inr ?a"
    by (simp add: RFC3046_init_def decode_if_present_def parse_a attrs_a del: One_nat_def)
  have hex: "\<forall>c\<in>set [65, 65, 45, 66, 66, 45, 67, 67, 45, 68, 68, 45, 69, 69, 45, 70, 70]. c = 45 \<or> hex_digit c"
    by (simp add: hex_digit_def)
  have "AgentRemoteId ?n = Inr None \<and> (\<exists>r. AgentCircuitId ?n = Inr r)"
    using accessors_raise_only_on_bad_dash_hex [of ?n 0 "[]" "[]"] by simp
  moreover have "AgentRemoteId ?u = Inr None"
    using accessors_raise_only_on_bad_dash_hex [of ?u 7 "[8, 9]" "[]"] by simp
  moreover have "\<exists>r. AgentRemoteId ?a = Inr r"
    using accessors_raise_only_on_bad_dash_hex [of ?a 1 "[65, 65, 45, 66, 66, 45, 67, 67, 45, 68, 68, 45, 69, 69, 45, 70, 70]" "[]"] hex
    by simp
  ultimately show ?thesis
    using init_n init_u init_a by simp
qed


section \<open>The classless route encoder\<close>

lemma length_words: "length (words a) = 4"
  by (simp add: words_def)

lemma octet_loop_four:
  assumes "length ws = 4"
  shows "octet_loop (nw, p, ws, gw) [0, 1, 2, 3] result = Inr (result @ take ((p + 7) div 8) ws)"
proof -
  obtain w0 w1 w2 w3 where ws: "ws = [w0, w1, w2, w3]"
    using assms by (auto simp: length_Suc_conv numeral_eq_Suc)
  consider "p = 0" | "0 < p" "p \<le> 8" | "8 < p" "p \<le> 16" | "16 < p" "p \<le> 24" | "24 < p"
    by linarith
  then show ?thesis
  proof cases
    case 1
    then show ?thesis by (simp add: ws)
  next
    case 2
    then have "(p + 7) div 8 = 1" by simp
    with 2 show ?thesis by (simp add: ws py_index_def)
  next
    case 3
    then have "(p + 7) div 8 = 2" by simp
    with 3 show ?thesis by (simp add: ws py_index_def)
  next
    case 4
    then have "(p + 7) div 8 = 3" by simp
    with 4 show ?thesis by (simp add: ws py_index_def)
  next
    case 5
    then have "4 \<le> (p + 7) div 8" by simp
    with 5 show ?thesis by (simp add: ws py_index_def)
  qed
qed

lemma route_loop_fragments:
  "\<forall>route\<in>set rs. length (fst (snd (snd route))) = 4 \<Longrightarrow>
   route_loop rs result = Inr (result @ concat (map route_fragment rs))"
proof (induction rs arbitrary: result)
  case Nil
  then show ?case by simp
next
  case (Cons route rs)
  obtain nw p ws gw where route: "route = (nw, p, ws, gw)"
    by (cases route)
  have "length ws = 4" using Cons.prems by (simp add: route)
  then have "octet_loop route [0, 1, 2, 3] (result @ [p]) =
      Inr ((result @ [p]) @ take ((p + 7) div 8) ws)"
    unfolding route by (rule octet_loop_four)
  then show ?case
    using Cons by (simp add: route route_fragment_def)
qed

lemma init_loop_py_map:
  "init_loop IPNetwork IPAddress items acc =
     (case py_map (item_route IPNetwork IPAddress) items of
        Inl e \<Rightarrow> Inl e
      | Inr rs \<Rightarrow> Inr (acc @ rs))"
proof (induction items arbitrary: acc)
  case Nil
  then show ?case by simp
next
  case (Cons item items)
  obtain subnet gw where item: "item = (subnet, gw)" by (cases item)
  show ?case
    by (simp add: item item_route_def Cons.IH split: sum.splits)
qed

lemma item_route_words:
  "item_route IPNetwork IPAddress item = Inr route \<Longrightarrow> length (fst (snd (snd route))) = 4"
  by (auto simp: item_route_def length_words split: sum.splits)

lemma py_map_Inr:
  "py_map f xs = Inr ys \<Longrightarrow>
   (\<forall>x\<in>set xs. \<exists>y. f x = Inr y) \<and> ys = map (\<lambda>x. projr (f x)) xs"
  by (induction xs arbitrary: ys) (auto split: sum.splits)

lemma py_map_all_Inr:
  "\<forall>x\<in>set xs. \<exists>y. f x = Inr y \<Longrightarrow> py_map f xs = Inr (map (\<lambda>x. projr (f x)) xs)"
  by (induction xs) auto

lemma encode_py_map:
  "encode IPNetwork IPAddress items =
     (case py_map (item_route IPNetwork IPAddress) items of
        Inl e \<Rightarrow> Inl e
      | Inr rs \<Rightarrow> Inr (concat (map route_fragment rs)))"
proof (cases "py_map (item_route IPNetwork IPAddress) items")
  case (Inl e)
  then show ?thesis
    by (simp add: encode_def RFC3442_init_def init_loop_py_map)
next
  case (Inr rs)
  have "length (fst (snd (snd route))) = 4" if "route \<in> set rs" for route
  proof -
    from py_map_Inr [OF Inr] that obtain item
      where "item \<in> set items" and "route = projr (item_route IPNetwork IPAddress item)"
        and "\<exists>y. item_route IPNetwork IPAddress item = Inr y"
      by auto
    then have "item_route IPNetwork IPAddress item = Inr route" by auto
    then show ?thesis by (rule item_route_words)
  qed
  then have "route_loop rs [] = Inr (concat (map route_fragment rs))"
    using route_loop_fragments [of rs "[]"] by simp
  then show ?thesis
    by (simp add: encode_def RFC3442_init_def init_loop_py_map Inr ListClasslessRoutes_def)
qed

lemma encode_single:
  "item_route IPNetwork IPAddress item = Inr route \<Longrightarrow>
   encode IPNetwork IPAddress [item] = Inr (route_fragment route)"
  by (simp add: encode_py_map)

lemma encode_all_Inr:
  assumes "\<forall>item\<in>set items. \<exists>route. item_route IPNetwork IPAddress item = Inr route"
  shows "encode IPNetwork IPAddress items =
    Inr (concat (map (\<lambda>item. route_fragment (projr (item_route IPNetwork IPAddress item))) items))"
  using py_map_all_Inr [OF assms] by (simp add: encode_py_map comp_def)

lemma encode_Inr:
  assumes "encode IPNetwork IPAddress items = Inr out"
  shows "\<forall>item\<in>set items. \<exists>route. item_route IPNetwork IPAddress item = Inr route"
proof (cases "py_map (item_route IPNetwork IPAddress) items")
  case (Inl e)
  then show ?thesis using assms by (simp add: encode_py_map)
next
  case (Inr rs)
  then show ?thesis using py_map_Inr by blast
qed

text \<open>
  Claim C9. The encoder is a concatenation homomorphism: when a sequence of entries
  encodes, every entry encodes on its own, and the output is the concatenation of the
  entries' own encodings in input order, with nothing between them. A permutation of
  the entries encodes to the concatenation of the same fragments in the permuted order.
\<close>

theorem encoder_concatenates_in_order:
  assumes "encode IPNetwork IPAddress items = Inr out"
  shows "\<exists>frags.
           list_all2 (\<lambda>item frag. encode IPNetwork IPAddress [item] = Inr frag) items frags \<and>
           out = concat frags \<and>
           (\<forall>items'. mset items' = mset items \<longrightarrow>
              (\<exists>frags'.
                 list_all2 (\<lambda>item frag. encode IPNetwork IPAddress [item] = Inr frag)
                   items' frags' \<and>
                 encode IPNetwork IPAddress items' = Inr (concat frags') \<and>
                 mset frags' = mset frags))"
proof -
  let ?g = "\<lambda>item. route_fragment (projr (item_route IPNetwork IPAddress item))"
  have ok: "\<forall>item\<in>set items. \<exists>route. item_route IPNetwork IPAddress item = Inr route"
    using assms by (rule encode_Inr)
  have single: "encode IPNetwork IPAddress [item] = Inr (?g item)" if "item \<in> set items" for item
  proof -
    from ok that obtain route where "item_route IPNetwork IPAddress item = Inr route" by blast
    then show ?thesis by (simp add: encode_single)
  qed
  have frags: "list_all2 (\<lambda>item frag. encode IPNetwork IPAddress [item] = Inr frag)
      items' (map ?g items')" if "set items' = set items" for items'
    using that single by (simp add: list_all2_map2 list_all2_same)
  have out: "out = concat (map ?g items)"
    using assms encode_all_Inr [OF ok] by simp
  have perm: "\<exists>frags'.
      list_all2 (\<lambda>item frag. encode IPNetwork IPAddress [item] = Inr frag) items' frags' \<and>
      encode IPNetwork IPAddress items' = Inr (concat frags') \<and>
      mset frags' = mset (map ?g items)" if "mset items' = mset items" for items'
  proof -
    have s: "set items' = set items" using that by (rule mset_eq_setD)
    have "encode IPNetwork IPAddress items' = Inr (concat (map ?g items'))"
      using ok s by (intro encode_all_Inr) simp
    moreover have "mset (map ?g items') = mset (map ?g items)"
      using that by simp
    ultimately show ?thesis using frags [OF s] by blast
  qed
  show ?thesis
    using frags [of items] out perm by blast
qed


lemma network_host_bits: "network net AND mask (32 - prefixlen net) = 0"
  by (rule bit_eqI) (auto simp: network_def bit_simps)

text \<open>
  Claim C6. For an entry whose subnet and gateway strings parse, with a prefix length of
  at most 32, the encoding is the prefix length, then the first \<open>ceil(prefixlen / 8)\<close>
  octets of the network address (none for prefix length 0), whose host bits beyond the
  prefix are zero, then the four octets of the gateway. \<open>(p + 7) div 8\<close> is the ceiling
  of \<open>p / 8\<close>: the least number of octets that hold \<open>p\<close> bits.
\<close>

theorem route_entry_encoding:
  assumes "IPNetwork subnet = Inr net" and "IPAddress gw = Inr gateway"
    and "prefixlen net \<le> 32"
  shows "encode IPNetwork IPAddress [(subnet, gw)] =
           Inr (prefixlen net # take ((prefixlen net + 7) div 8) (words (network net))
                  @ words gateway) \<and>
         length (take ((prefixlen net + 7) div 8) (words (network net))) =
           (prefixlen net + 7) div 8 \<and>
         prefixlen net \<le> 8 * ((prefixlen net + 7) div 8) \<and>
         8 * ((prefixlen net + 7) div 8) < prefixlen net + 8 \<and>
         network net AND mask (32 - prefixlen net) = 0 \<and>
         length (words gateway) = 4"
proof -
  have "item_route IPNetwork IPAddress (subnet, gw) =
      Inr (network net, prefixlen net, words (network net), words gateway)"
    using assms(1,2) by (simp add: item_route_def)
  then have "encode IPNetwork IPAddress [(subnet, gw)] =
      Inr (prefixlen net # take ((prefixlen net + 7) div 8) (words (network net))
             @ words gateway)"
    using encode_single [of IPNetwork IPAddress "(subnet, gw)"]
    by (simp add: route_fragment_def)
  moreover have "(prefixlen net + 7) div 8 \<le> 4"
    using assms(3) by simp
  moreover have "prefixlen net \<le> 8 * ((prefixlen net + 7) div 8)"
    and "8 * ((prefixlen net + 7) div 8) < prefixlen net + 8"
    by presburger+
  ultimately show ?thesis
    by (simp add: length_words network_host_bits)
qed

text \<open>
  The entries \<open>10.0.0.0/8\<close>, \<open>0.0.0.0/0\<close> and \<open>192.168.1.0/25\<close> of the specification.
\<close>

theorem route_entry_encoding_witness:
  "encode example_IPNetwork example_IPAddress [(''10.0.0.0/8'', ''10.0.0.1'')] =
     Inr [8, 10, 10, 0, 0, 1] \<and>
   encode example_IPNetwork example_IPAddress [(''0.0.0.0/0'', ''10.0.0.1'')] =
     Inr [0, 10, 0, 0, 1] \<and>
   encode example_IPNetwork example_IPAddress [(''192.168.1.0/25'', ''192.168.1.1'')] =
     Inr [25, 192, 168, 1, 0, 192, 168, 1, 1]"
proof -
  have "encode example_IPNetwork example_IPAddress [(''10.0.0.0/8'', ''10.0.0.1'')] =
      Inr [8, 10, 10, 0, 0, 1]"
    using route_entry_encoding [of example_IPNetwork "''10.0.0.0/8''"
        "\<lparr>ip_value = 0x0A000000, prefixlen = 8\<rparr>" example_IPAddress "''10.0.0.1''" "0x0A000001"]
    by (simp add: example_IPNetwork_def example_IPAddress_def words_def network_def
        mask_eq_exp_minus_1)
  moreover have "encode example_IPNetwork example_IPAddress [(''0.0.0.0/0'', ''10.0.0.1'')] =
      Inr [0, 10, 0, 0, 1]"
    using route_entry_encoding [of example_IPNetwork "''0.0.0.0/0''"
        "\<lparr>ip_value = 0, prefixlen = 0\<rparr>" example_IPAddress "''10.0.0.1''" "0x0A000001"]
    by (simp add: example_IPNetwork_def example_IPAddress_def words_def network_def
        mask_eq_exp_minus_1)
  moreover have
    "encode example_IPNetwork example_IPAddress [(''192.168.1.0/25'', ''192.168.1.1'')] =
      Inr [25, 192, 168, 1, 0, 192, 168, 1, 1]"
    using route_entry_encoding [of example_IPNetwork "''192.168.1.0/25''"
        "\<lparr>ip_value = 0xC0A80100, prefixlen = 25\<rparr>" example_IPAddress "''192.168.1.1''"
        "0xC0A80101"]
    by (simp add: example_IPNetwork_def example_IPAddress_def words_def network_def
        mask_eq_exp_minus_1)
  ultimately show ?thesis by simp
qed

text \<open>Two routes, encoded in both orders.\<close>

theorem encoder_concatenates_in_order_witness:
  "encode example_IPNetwork example_IPAddress
     [(''10.0.0.0/8'', ''10.0.0.1''), (''0.0.0.0/0'', ''10.0.0.1'')] =
     Inr ([8, 10, 10, 0, 0, 1] @ [0, 10, 0, 0, 1]) \<and>
   encode example_IPNetwork example_IPAddress
     [(''0.0.0.0/0'', ''10.0.0.1''), (''10.0.0.0/8'', ''10.0.0.1'')] =
     Inr ([0, 10, 0, 0, 1] @ [8, 10, 10, 0, 0, 1])"
proof -
  let ?r1 = "(''10.0.0.0/8'', ''10.0.0.1'')" and ?r2 = "(''0.0.0.0/0'', ''10.0.0.1'')"
  let ?enc = "encode example_IPNetwork example_IPAddress"
  have e1: "?enc [?r1] = Inr [8, 10, 10, 0, 0, 1]"
    by (simp add: encode_py_map item_route_def example_IPNetwork_def example_IPAddress_def
        route_fragment_def words_def network_def mask_eq_exp_minus_1)
  have e2: "?enc [?r2] = Inr [0, 10, 0, 0, 1]"
    by (simp add: encode_py_map item_route_def example_IPNetwork_def example_IPAddress_def
        route_fragment_def words_def network_def mask_eq_exp_minus_1)
  have e12: "?enc [?r1, ?r2] = Inr ([8, 10, 10, 0, 0, 1] @ [0, 10, 0, 0, 1])"
    by (simp add: encode_py_map item_route_def example_IPNetwork_def example_IPAddress_def
        route_fragment_def words_def network_def mask_eq_exp_minus_1)
  have "mset [?r2, ?r1] = mset [?r1, ?r2]" by simp
  with encoder_concatenates_in_order [OF e12] obtain frags'
    where rel: "list_all2 (\<lambda>item frag. ?enc [item] = Inr frag) [?r2, ?r1] frags'"
      and enc: "?enc [?r2, ?r1] = Inr (concat frags')"
    by blast
  from rel obtain f2 f1 where "frags' = [f2, f1]" and "?enc [?r2] = Inr f2"
    and "?enc [?r1] = Inr f1"
    by (auto simp: list_all2_Cons1)
  then have "frags' = [[0, 10, 0, 0, 1], [8, 10, 10, 0, 0, 1]]"
    using e1 e2 by simp
  then show ?thesis
    using enc e12 by simp
qed

end
